theory Spec2Isabelle
  imports Complex_Main
begin

section \<open>Data model\<close>

text \<open>
  The content items, sessions and user data of AdaptiveLearn360 are plain JavaScript
  objects. A field that may be missing (\<open>undefined\<close> or \<open>null\<close>) is an \<open>option\<close>;
  numbers that the source only adds, subtracts and compares are \<open>int\<close>, scores and
  ratios are \<open>rat\<close>. Dates are milliseconds since the epoch.
\<close>

record ContentItem =
  itemId :: string
  subject :: "string option"
  difficulty :: int
  dueDate :: "int option"
  estimatedDuration :: "int option"
  previouslyStruggled :: bool
  lastStudied :: "int option"
  dependsOn :: "string list option"
  priorityScore :: "int option"
  priority :: "string option"
  category :: "string option"

text \<open>The object built by \<open>groupContentIntoSessions\<close>; its \<open>estimatedDuration\<close> and
  \<open>priority\<close> fields are prefixed, the names being taken by the item's fields.\<close>

record Session =
  items :: "ContentItem list"
  sessionEstimatedDuration :: int
  sessionPriority :: "string option"

section \<open>Session grouper\<close>

text \<open>\<open>priorities[priority] || 0\<close>: the five known labels have the values 4 to 0, every
  other label and a missing label count as 0.\<close>

definition getPriorityValue :: "string option \<Rightarrow> int" where
  "getPriorityValue p =
     (if p = Some ''critical'' then 4
      else if p = Some ''high'' then 3
      else if p = Some ''medium'' then 2
      else if p = Some ''low'' then 1
      else 0)"

text \<open>\<open>item.estimatedDuration || 10\<close>: a missing duration and the duration 0 are both
  falsy and give 10.\<close>

definition itemDuration :: "ContentItem \<Rightarrow> int" where
  "itemDuration item =
     (case estimatedDuration item of None \<Rightarrow> 10 | Some d \<Rightarrow> if d = 0 then 10 else d)"

text \<open>The \<open>reduce\<close> that looks for the highest-priority item starts from the object
  \<open>{ priority: 'low' }\<close> and replaces it only by an item of strictly greater value. Only
  the \<open>priority\<close> of the accumulator is read afterwards, so the fold carries that field.\<close>

definition highestPriority :: "ContentItem list \<Rightarrow> string option" where
  "highestPriority xs =
     foldl (\<lambda>highest item.
              if getPriorityValue (priority item) > getPriorityValue highest
              then priority item else highest)
           (Some ''low'') xs"

definition newSession :: Session where
  "newSession = \<lparr>items = [], sessionEstimatedDuration = 0, sessionPriority = Some ''medium''\<rparr>"

definition closeSession :: "Session \<Rightarrow> Session" where
  "closeSession s = s\<lparr>sessionPriority := highestPriority (items s)\<rparr>"

text \<open>One iteration of the \<open>forEach\<close>: the state is the array \<open>sessions\<close> and the
  object \<open>currentSession\<close>.\<close>

definition groupStep :: "int \<Rightarrow> Session list \<times> Session \<Rightarrow> ContentItem \<Rightarrow> Session list \<times> Session" where
  "groupStep sessionDuration st item =
     (let sessions = fst st;
          currentSession = snd st;
          d = itemDuration item;
          st' = (if sessionEstimatedDuration currentSession + d > sessionDuration
                    \<and> length (items currentSession) > 0
                 then (sessions @ [closeSession currentSession], newSession)
                 else (sessions, currentSession))
      in (fst st',
          (snd st')\<lparr>items := items (snd st') @ [item],
                    sessionEstimatedDuration := sessionEstimatedDuration (snd st') + d\<rparr>))"

definition flushSession :: "Session list \<times> Session \<Rightarrow> Session list" where
  "flushSession st =
     (if length (items (snd st)) > 0 then fst st @ [closeSession (snd st)] else fst st)"

text \<open>The default parameter \<open>sessionDuration = 25\<close> stands in for an omitted argument.\<close>

definition targetDuration :: "int option \<Rightarrow> int" where
  "targetDuration t = (case t of None \<Rightarrow> 25 | Some v \<Rightarrow> v)"

definition groupContentIntoSessions :: "ContentItem list option \<Rightarrow> int option \<Rightarrow> Session list" where
  "groupContentIntoSessions prioritizedItems sessionDuration =
     (case prioritizedItems of
        None \<Rightarrow> []
      | Some xs \<Rightarrow>
          if length xs = 0 then []
          else flushSession (foldl (groupStep (targetDuration sessionDuration)) ([], newSession) xs))"

section \<open>User data\<close>

record Performance =
  averageScore :: "rat option"
  weakAreas :: "string list option"
  strongAreas :: "string list option"

text \<open>\<open>preferredStudyTime\<close> is an object from period labels to scores; the list holds
  its entries in the order \<open>Object.entries\<close> enumerates them.\<close>

record Habits =
  preferredStudyTime :: "(string \<times> rat) list option"
  consistencyScore :: "rat option"

record Preferences =
  studyDuration :: "int option"
  breakDuration :: "int option"

record UserData =
  performance :: "Performance option"
  habits :: "Habits option"
  preferences :: "Preferences option"

text \<open>\<open>performance?.weakAreas || []\<close> and \<open>performance?.strongAreas || []\<close>.\<close>

definition weakAreasOf :: "Performance option \<Rightarrow> string list" where
  "weakAreasOf p =
     (case p of None \<Rightarrow> [] | Some q \<Rightarrow> (case weakAreas q of None \<Rightarrow> [] | Some w \<Rightarrow> w))"

definition strongAreasOf :: "Performance option \<Rightarrow> string list" where
  "strongAreasOf p =
     (case p of None \<Rightarrow> [] | Some q \<Rightarrow> (case strongAreas q of None \<Rightarrow> [] | Some w \<Rightarrow> w))"

text \<open>\<open>areas.includes(item.subject)\<close> on an array of strings: a missing subject is in
  no such array.\<close>

definition arrayIncludes :: "string list \<Rightarrow> string option \<Rightarrow> bool" where
  "arrayIncludes areas s = (case s of None \<Rightarrow> False | Some v \<Rightarrow> v \<in> set areas)"

section \<open>Prioritizer\<close>

text \<open>The six factors of the score. The clock read \<open>new Date()\<close> is the parameter
  \<open>now\<close>; a due date is the millisecond value of \<open>new Date(item.dueDate)\<close>.\<close>

definition calcPriorityScore :: "int \<Rightarrow> string list \<Rightarrow> string list \<Rightarrow> ContentItem \<Rightarrow> int" where
  "calcPriorityScore now weak strong item =
     5
     + (if arrayIncludes weak (subject item) then 3 else 0)
     - (if arrayIncludes strong (subject item) then 2 else 0)
     + min 2 (max 0 (difficulty item - 3))
     + (case dueDate item of
          None \<Rightarrow> 0
        | Some due \<Rightarrow>
            (let daysUntilDue = max 0 (rat_of_int (due - now) / (1000 * 60 * 60 * 24))
             in if daysUntilDue < 1 then 3
                else if daysUntilDue < 3 then 2
                else if daysUntilDue < 7 then 1
                else 0))
     + (if previouslyStruggled item then 2 else 0)
     + (if lastStudied item = None then 1 else 0)"

definition priorityLevel :: "int \<Rightarrow> string" where
  "priorityLevel priorityScore' =
     (if priorityScore' \<ge> 10 then ''critical''
      else if priorityScore' \<ge> 8 then ''high''
      else if priorityScore' \<ge> 5 then ''medium''
      else if priorityScore' \<ge> 3 then ''low''
      else ''optional'')"

text \<open>The body of the \<open>forEach\<close>: the item with its two computed fields assigned.\<close>

definition assignPriority :: "int \<Rightarrow> string list \<Rightarrow> string list \<Rightarrow> ContentItem \<Rightarrow> ContentItem" where
  "assignPriority now weak strong item =
     item\<lparr>priorityScore := Some (calcPriorityScore now weak strong item),
          priority := Some (priorityLevel (calcPriorityScore now weak strong item))\<rparr>"

text \<open>\<open>sort((a, b) => b.priorityScore - a.priorityScore)\<close>: \<open>Array.prototype.sort\<close> is
  stable, so this is the stable sort on the negated score. Every item that reaches the sort
  has its score assigned.\<close>

definition descendingKey :: "ContentItem \<Rightarrow> int" where
  "descendingKey item = - (case priorityScore item of None \<Rightarrow> 0 | Some v \<Rightarrow> v)"

definition prioritizeContent :: "int \<Rightarrow> ContentItem list option \<Rightarrow> UserData option \<Rightarrow> ContentItem list" where
  "prioritizeContent now contentItems userData =
     (case contentItems of
        None \<Rightarrow> []
      | Some xs \<Rightarrow>
          if length xs = 0 then []
          else (case userData of
                  None \<Rightarrow> []
                | Some ud \<Rightarrow>
                    sort_key descendingKey
                      (map (assignPriority now (weakAreasOf (performance ud))
                              (strongAreasOf (performance ud))) xs)))"

text \<open>A content item with the given subject, difficulty, duration and priority label and
  nothing else set, for the worked examples.\<close>

definition exampleItem :: "string \<Rightarrow> string option \<Rightarrow> int \<Rightarrow> int option \<Rightarrow> string option \<Rightarrow> ContentItem" where
  "exampleItem i s d dur p =
     \<lparr>itemId = i, subject = s, difficulty = d, dueDate = None, estimatedDuration = dur,
      previouslyStruggled = False, lastStudied = None, dependsOn = None,
      priorityScore = None, priority = p, category = None\<rparr>"

section \<open>Study-mix generator\<close>

text \<open>\<open>Math.round\<close> rounds to the nearest integer, a half upwards. The source applies it
  to \<open>totalItems * (percentage / 100)\<close> in double precision, with \<open>totalItems\<close> from 0 to
  10 and the percentage one of 15, 20, 40, 60 and 70; on these 55 products the double
  result and the exact one round to the same integer, so the model computes in \<open>rat\<close>.\<close>

definition mathRound :: "rat \<Rightarrow> int" where
  "mathRound x = \<lfloor>x + 1 / 2\<rfloor>"

text \<open>The percentages for weak-area, strong-area and new content.
  \<open>performance.averageScore || 70\<close> reads a missing score and the score 0 as 70.\<close>

definition mixPercentages :: "Performance option \<Rightarrow> rat \<times> rat \<times> rat" where
  "mixPercentages performance' =
     (case performance' of
        None \<Rightarrow> (60, 20, 20)
      | Some p \<Rightarrow>
          (let avgScore = (case averageScore p of None \<Rightarrow> 70 | Some a \<Rightarrow> if a = 0 then 70 else a)
           in if avgScore < 60 then (70, 15, 15)
              else if avgScore > 85 then (40, 20, 40)
              else (60, 20, 20)))"

text \<open>\<open>weakCount\<close>, \<open>strongCount\<close> and the first value of \<open>newCount\<close>, for a content
  list of the given length.\<close>

definition targetCounts :: "nat \<Rightarrow> Performance option \<Rightarrow> int \<times> int \<times> int" where
  "targetCounts n performance' =
     (let pct = mixPercentages performance';
          totalItems = rat_of_nat (min n 10)
      in (mathRound (totalItems * (fst pct / 100)),
          mathRound (totalItems * (fst (snd pct) / 100)),
          mathRound (totalItems * (snd (snd pct) / 100))))"

definition withCategory :: "string \<Rightarrow> ContentItem \<Rightarrow> ContentItem" where
  "withCategory c item = item\<lparr>category := Some c\<rparr>"

text \<open>\<open>xs.slice(0, Math.min(count, xs.length))\<close>; the counts are never negative.\<close>

definition sliceFront :: "int \<Rightarrow> 'a list \<Rightarrow> 'a list" where
  "sliceFront count' xs = take (nat (min count' (int (length xs)))) xs"

definition generateBalancedStudyMix :: "ContentItem list option \<Rightarrow> Performance option \<Rightarrow> ContentItem list" where
  "generateBalancedStudyMix contentItems performance' =
     (case contentItems of
        None \<Rightarrow> []
      | Some xs \<Rightarrow>
          if length xs = 0 then []
          else
            (let weak = weakAreasOf performance';
                 strong = strongAreasOf performance';
                 weakAreaItems = filter (\<lambda>item. arrayIncludes weak (subject item)) xs;
                 strongAreaItems = filter (\<lambda>item. arrayIncludes strong (subject item)) xs;
                 newContentItems =
                   filter (\<lambda>item. \<not> arrayIncludes weak (subject item)
                                   \<and> \<not> arrayIncludes strong (subject item)) xs;
                 counts = targetCounts (length xs) performance';
                 weakCount = fst counts;
                 strongCount = fst (snd counts);
                 newCount0 = snd (snd counts);
                 newCount1 = (if int (length weakAreaItems) < weakCount
                              then newCount0 + (weakCount - int (length weakAreaItems))
                              else newCount0);
                 newCount = (if int (length strongAreaItems) < strongCount
                             then newCount1 + (strongCount - int (length strongAreaItems))
                             else newCount1)
             in map (withCategory ''weak-area'') (sliceFront weakCount weakAreaItems)
                @ map (withCategory ''strong-area'') (sliceFront strongCount strongAreaItems)
                @ map (withCategory ''new-content'') (sliceFront newCount newContentItems)))"

text \<open>A performance record with the weak area calculus and the strong area physics, and
  eleven items: seven of calculus, two of physics, two of history.\<close>

definition examplePerformance :: "rat option \<Rightarrow> Performance" where
  "examplePerformance a =
     \<lparr>averageScore = a, weakAreas = Some [''calculus''], strongAreas = Some [''physics'']\<rparr>"

definition elevenItems :: "ContentItem list" where
  "elevenItems =
     [exampleItem ''c1'' (Some ''calculus'') 3 None None,
      exampleItem ''c2'' (Some ''calculus'') 3 None None,
      exampleItem ''c3'' (Some ''calculus'') 3 None None,
      exampleItem ''c4'' (Some ''calculus'') 3 None None,
      exampleItem ''c5'' (Some ''calculus'') 3 None None,
      exampleItem ''c6'' (Some ''calculus'') 3 None None,
      exampleItem ''c7'' (Some ''calculus'') 3 None None,
      exampleItem ''p1'' (Some ''physics'') 3 None None,
      exampleItem ''p2'' (Some ''physics'') 3 None None,
      exampleItem ''h1'' (Some ''history'') 3 None None,
      exampleItem ''h2'' (Some ''history'') 3 None None]"

section \<open>Sequencer\<close>

datatype JsError = TypeError

text \<open>\<open>bySubject\<close> starts as the object literal \<open>{}\<close>, whose reads fall through to
  \<open>Object.prototype\<close>. For a subject named like one of the inherited properties,
  \<open>groups[subject]\<close> is a function (or the prototype object), which is truthy and has no
  \<open>push\<close>: the call \<open>groups[subject].push(item)\<close> throws a TypeError.\<close>

definition objectPrototypeKeys :: "string list" where
  "objectPrototypeKeys =
     [''constructor'', ''hasOwnProperty'', ''isPrototypeOf'', ''propertyIsEnumerable'',
      ''toLocaleString'', ''toString'', ''valueOf'', ''__proto__'',
      ''__defineGetter__'', ''__defineSetter__'', ''__lookupGetter__'', ''__lookupSetter__'']"

text \<open>\<open>item.subject || 'general'\<close>: a missing subject and the empty string are falsy.\<close>

definition subjectKey :: "ContentItem \<Rightarrow> string" where
  "subjectKey item =
     (case subject item of None \<Rightarrow> ''general'' | Some s \<Rightarrow> if s = [] then ''general'' else s)"

text \<open>The own properties of \<open>bySubject\<close>, in the order of their creation.\<close>

type_synonym groups = "(string \<times> ContentItem list) list"

fun pushToGroup :: "string \<Rightarrow> ContentItem \<Rightarrow> groups \<Rightarrow> groups" where
  "pushToGroup k x [] = []"
| "pushToGroup k x ((k', g) # rest) =
     (if k = k' then (k', g @ [x]) # rest else (k', g) # pushToGroup k x rest)"

text \<open>The \<open>reduce\<close> that builds \<open>bySubject\<close>; the exception ends it.\<close>

fun groupBySubject :: "groups \<Rightarrow> ContentItem list \<Rightarrow> JsError + groups" where
  "groupBySubject groups' [] = Inr groups'"
| "groupBySubject groups' (item # rest) =
     (if subjectKey item \<in> set (map fst groups')
      then groupBySubject (pushToGroup (subjectKey item) item groups') rest
      else if subjectKey item \<in> set objectPrototypeKeys then Inl TypeError
      else groupBySubject (groups' @ [(subjectKey item, [item])]) rest)"

definition dependsOnIncludes :: "ContentItem \<Rightarrow> ContentItem \<Rightarrow> bool" where
  "dependsOnIncludes a b = (case dependsOn a of None \<Rightarrow> False | Some ds \<Rightarrow> itemId b \<in> set ds)"

definition compareItems :: "ContentItem \<Rightarrow> ContentItem \<Rightarrow> int" where
  "compareItems a b =
     (if dependsOnIncludes a b then 1
      else if dependsOnIncludes b a then - 1
      else difficulty a - difficulty b)"

text \<open>\<open>Array.prototype.sort(compare)\<close> as the stable insertion sort. For a consistent
  comparator this is the order every engine returns; \<open>compareItems\<close> need not be
  consistent, and then the order is the engine's choice among the permutations. The
  properties below use only that the sorted array has the elements of the unsorted one.\<close>

fun insertBy :: "('a \<Rightarrow> 'a \<Rightarrow> int) \<Rightarrow> 'a \<Rightarrow> 'a list \<Rightarrow> 'a list" where
  "insertBy cmp x [] = [x]"
| "insertBy cmp x (y # ys) = (if cmp x y \<le> 0 then x # y # ys else y # insertBy cmp x ys)"

definition sortWith :: "('a \<Rightarrow> 'a \<Rightarrow> int) \<Rightarrow> 'a list \<Rightarrow> 'a list" where
  "sortWith cmp xs = foldr (insertBy cmp) xs []"

text \<open>\<open>Object.keys\<close> lists the keys that are array indices first, in ascending numeric
  order, and the other keys in the order of their creation. An array index is the decimal
  numeral, without leading zeros, of a number below \<open>2^32 - 1\<close>.\<close>

definition isDigit :: "char \<Rightarrow> bool" where
  "isDigit c = (c \<in> set ''0123456789'')"

definition indexValue :: "string \<Rightarrow> int" where
  "indexValue s = foldl (\<lambda>n c. 10 * n + (of_char c - 48)) 0 s"

definition isArrayIndex :: "string \<Rightarrow> bool" where
  "isArrayIndex s =
     (s \<noteq> [] \<and> list_all isDigit s \<and> (s = ''0'' \<or> hd s \<noteq> CHR ''0'')
      \<and> indexValue s < 4294967295)"

definition objectKeys :: "string list \<Rightarrow> string list" where
  "objectKeys ks =
     sort_key indexValue (filter isArrayIndex ks) @ filter (\<lambda>k. \<not> isArrayIndex k) ks"

text \<open>\<open>bySubject[subject]\<close> for a key of the object.\<close>

definition groupOf :: "groups \<Rightarrow> string \<Rightarrow> ContentItem list" where
  "groupOf groups' k = (case map_of groups' k of None \<Rightarrow> [] | Some g \<Rightarrow> g)"

text \<open>One pass of \<open>subjects.forEach\<close> in the \<open>while\<close> loop: the items pushed at the
  current index. \<open>hasMore\<close> is set exactly when the pass pushes an item.\<close>

definition interleaveRound :: "nat \<Rightarrow> ContentItem list list \<Rightarrow> ContentItem list" where
  "interleaveRound index gs = concat (map (\<lambda>g. if index < length g then [g ! index] else []) gs)"

definition maxLength :: "'a list list \<Rightarrow> nat" where
  "maxLength gs = foldr (\<lambda>g m. max (length g) m) gs 0"

lemma interleaveRound_empty_iff: "interleaveRound i gs = [] \<longleftrightarrow> maxLength gs \<le> i"
  by (induction gs) (auto simp: interleaveRound_def maxLength_def)

function interleave :: "ContentItem list list \<Rightarrow> nat \<Rightarrow> ContentItem list \<Rightarrow> ContentItem list" where
  "interleave gs index result =
     (if interleaveRound index gs = [] then result
      else interleave gs (index + 1) (result @ interleaveRound index gs))"
  by pat_completeness auto
termination
  by (relation "measure (\<lambda>(gs, index, result). maxLength gs - index)")
     (auto simp: interleaveRound_empty_iff)

declare interleave.simps [simp del]

definition recommendContentSequence :: "ContentItem list option \<Rightarrow> JsError + ContentItem list" where
  "recommendContentSequence contentItems =
     (case contentItems of
        None \<Rightarrow> Inr []
      | Some xs \<Rightarrow>
          if length xs = 0 then Inr []
          else (case groupBySubject [] xs of
                  Inl e \<Rightarrow> Inl e
                | Inr bySubject \<Rightarrow>
                    (let sorted' = map (\<lambda>kg. (fst kg, sortWith compareItems (snd kg))) bySubject;
                         subjects = objectKeys (map fst sorted')
                     in Inr (interleave (map (groupOf sorted') subjects) 0 []))))"

section \<open>Scheduler\<close>

text \<open>A scheduled session. Its \<open>items\<close> and \<open>breakDuration\<close> fields are renamed, the
  names being taken. A \<open>Date\<close> is its millisecond value; the calendar operations
  \<open>setHours(h, 0, 0, 0)\<close> and \<open>setDate(getDate() + 1)\<close> are taken in a zone without
  clock changes, where a day has 86400000 milliseconds.\<close>

record StudySession =
  date :: int
  studyItems :: "ContentItem list"
  duration :: int
  sessionBreakDuration :: int
  completed :: bool

definition msPerDay :: int where
  "msPerDay = 24 * 60 * 60 * 1000"

definition setHours :: "int \<Rightarrow> int \<Rightarrow> int" where
  "setHours d h = (d div msPerDay) * msPerDay + h * (60 * 60 * 1000)"

text \<open>\<open>value || fallback\<close> on an optional number: missing and 0 give the fallback.\<close>

definition orDefault :: "'a::zero option \<Rightarrow> 'a \<Rightarrow> 'a" where
  "orDefault v d = (case v of None \<Rightarrow> d | Some x \<Rightarrow> if x = 0 then d else x)"

text \<open>The loop of \<open>getBestStudyHours\<close> over \<open>Object.entries(preferredTime)\<close>, with
  \<open>habits?.preferredStudyTime || {}\<close>.\<close>

definition preferredTimeOf :: "Habits option \<Rightarrow> (string \<times> rat) list" where
  "preferredTimeOf h =
     (case h of None \<Rightarrow> []
      | Some hb \<Rightarrow> (case preferredStudyTime hb of None \<Rightarrow> [] | Some t \<Rightarrow> t))"

definition bestPeriod :: "Habits option \<Rightarrow> string" where
  "bestPeriod h =
     fst (foldl (\<lambda>best entry. if snd entry > snd best then entry else best)
                (''evening'', 0) (preferredTimeOf h))"

text \<open>\<open>defaultHours[bestPeriod]\<close>: the table has three keys. Any other label gives
  \<open>undefined\<close> or an inherited property of the object literal, neither of which can be
  destructured as an array; \<open>None\<close> stands for both.\<close>

definition defaultHours :: "string \<Rightarrow> (int \<times> int) option" where
  "defaultHours period =
     (if period = ''morning'' then Some (9, 11)
      else if period = ''afternoon'' then Some (14, 16)
      else if period = ''evening'' then Some (19, 21)
      else None)"

definition getBestStudyHours :: "Habits option \<Rightarrow> (int \<times> int) option" where
  "getBestStudyHours h = defaultHours (bestPeriod h)"

text \<open>The comparator of the content sort; \<open>performance?.weakAreas?.includes(..)\<close> is
  \<open>undefined\<close>, hence falsy, without performance data or weak areas.\<close>

definition isWeak :: "Performance option \<Rightarrow> ContentItem \<Rightarrow> bool" where
  "isWeak p item = arrayIncludes (weakAreasOf p) (subject item)"

definition compareContent :: "Performance option \<Rightarrow> ContentItem \<Rightarrow> ContentItem \<Rightarrow> int" where
  "compareContent p a b =
     (if isWeak p a \<and> \<not> isWeak p b then - 1
      else if \<not> isWeak p a \<and> isWeak p b then 1
      else difficulty b - difficulty a)"

text \<open>\<open>Math.max(1, Math.min(3, Math.ceil(length / (daysToSchedule * consistencyScore))))\<close>
  for a positive length: a zero divisor gives \<open>Infinity\<close>, which the \<open>min\<close> cuts to 3.
  The quotient is exact here, in double precision in the source.\<close>

definition itemsPerDayOf :: "nat \<Rightarrow> int \<Rightarrow> rat \<Rightarrow> nat" where
  "itemsPerDayOf n daysToSchedule consistencyScore' =
     (if rat_of_int daysToSchedule * consistencyScore' = 0 then 3
      else nat (max 1 (min 3
             \<lceil>rat_of_nat n / (rat_of_int daysToSchedule * consistencyScore')\<rceil>)))"

text \<open>The body of the \<open>for\<close> loop for one day. The destructuring
  \<open>const [startHour, endHour] = getBestStudyHours(dayOfWeek)\<close> throws a TypeError when the
  best period has no entry in \<open>defaultHours\<close>. The duration is computed exactly, with
  \<open>0.1\<close> and \<open>0.005\<close> as the fractions they denote.\<close>

definition scheduleDay :: "UserData \<Rightarrow> ContentItem list \<Rightarrow> nat \<Rightarrow> int \<Rightarrow> nat \<Rightarrow> JsError + StudySession" where
  "scheduleDay ud sortedContent itemsPerDay currentDate day =
     (let startIndex = (day * itemsPerDay) mod length sortedContent;
          dayItems = map (\<lambda>i. sortedContent ! ((startIndex + i) mod length sortedContent))
                         [0..<itemsPerDay]
      in case getBestStudyHours (habits ud) of
           None \<Rightarrow> Inl TypeError
         | Some hours \<Rightarrow>
             (let sessionDate = setHours currentDate (fst hours);
                  averageScore' =
                    orDefault (case performance ud of None \<Rightarrow> None | Some p \<Rightarrow> averageScore p) 70;
                  difficultyFactor =
                    rat_of_int (sum_list (map difficulty dayItems)) / rat_of_nat (length dayItems);
                  baseStudyDuration =
                    orDefault (case preferences ud of None \<Rightarrow> None | Some p \<Rightarrow> studyDuration p) 25;
                  baseBreakDuration =
                    orDefault (case preferences ud of None \<Rightarrow> None | Some p \<Rightarrow> breakDuration p) 5;
                  adjustedDuration =
                    mathRound (rat_of_int baseStudyDuration
                               * (1 + (difficultyFactor - 3) * (1 / 10))
                               * (1 + (70 - averageScore') * (5 / 1000)))
              in Inr \<lparr>date = sessionDate, studyItems = dayItems, duration = adjustedDuration,
                      sessionBreakDuration = baseBreakDuration, completed = False\<rparr>))"

text \<open>The \<open>for\<close> loop over the days still to schedule; the state is \<open>currentDate\<close> and
  \<open>schedule\<close>, and the exception ends it.\<close>

fun scheduleLoop :: "UserData \<Rightarrow> ContentItem list \<Rightarrow> nat \<Rightarrow> nat list \<Rightarrow> int \<Rightarrow> StudySession list
                     \<Rightarrow> JsError + StudySession list" where
  "scheduleLoop ud sortedContent itemsPerDay [] currentDate schedule = Inr schedule"
| "scheduleLoop ud sortedContent itemsPerDay (day # days) currentDate schedule =
     (case scheduleDay ud sortedContent itemsPerDay currentDate day of
        Inl e \<Rightarrow> Inl e
      | Inr session \<Rightarrow>
          scheduleLoop ud sortedContent itemsPerDay days (currentDate + msPerDay)
            (schedule @ [session]))"

text \<open>\<open>startDate\<close> and \<open>daysToSchedule\<close> are the parameters after their defaults have been
  filled in. The loop \<open>for (day = 0; day < daysToSchedule; day++)\<close> runs for the days
  \<open>0, \<dots>, daysToSchedule - 1\<close>, and not at all for a count of zero or less.\<close>

definition generateAdaptiveSchedule :: "UserData option \<Rightarrow> ContentItem list option \<Rightarrow> int \<Rightarrow> int
                                 \<Rightarrow> JsError + StudySession list" where
  "generateAdaptiveSchedule userData contentItems startDate daysToSchedule =
     (case userData of
        None \<Rightarrow> Inr []
      | Some ud \<Rightarrow>
          (case contentItems of
             None \<Rightarrow> Inr []
           | Some xs \<Rightarrow>
               if length xs = 0 then Inr []
               else
                 (let sortedContent = sortWith (compareContent (performance ud)) xs;
                      consistencyScore' =
                        orDefault (case habits ud of None \<Rightarrow> None | Some h \<Rightarrow> consistencyScore h)
                                  (1 / 2);
                      itemsPerDay = itemsPerDayOf (length sortedContent) daysToSchedule
                                      consistencyScore'
                  in scheduleLoop ud sortedContent itemsPerDay [0..<nat daysToSchedule]
                       startDate [])))"

text \<open>The mock user of the application, with the score of each study period as a
  parameter.\<close>

definition exampleUser :: "(string \<times> rat) list \<Rightarrow> UserData" where
  "exampleUser periodScores =
     \<lparr>performance = Some (examplePerformance (Some 75)),
      habits = Some \<lparr>preferredStudyTime = Some periodScores, consistencyScore = Some (65 / 100)\<rparr>,
      preferences = Some \<lparr>studyDuration = Some 25, breakDuration = Some 5\<rparr>\<rparr>"

section \<open>Feedback adjustment\<close>

record Feedback =
  completedItems :: "ContentItem list option"
  struggledItems :: "ContentItem list option"
  feedbackAverageScore :: "rat option"

fun findIndex :: "('a \<Rightarrow> bool) \<Rightarrow> 'a list \<Rightarrow> nat option" where
  "findIndex P [] = None"
| "findIndex P (x # xs) =
     (if P x then Some 0 else (case findIndex P xs of None \<Rightarrow> None | Some n \<Rightarrow> Some (Suc n)))"

text \<open>The first adjustment: up to two struggled items go in front of the first session
  dated after \<open>now\<close>, which gets ten more minutes.\<close>

definition addReinforcement :: "int \<Rightarrow> Feedback \<Rightarrow> StudySession list \<Rightarrow> StudySession list" where
  "addReinforcement now fb updatedSchedule =
     (let reinforcementNeeded = (case struggledItems fb of None \<Rightarrow> [] | Some r \<Rightarrow> r)
      in if length reinforcementNeeded > 0 \<and> length updatedSchedule > 0
         then (case findIndex (\<lambda>session. date session > now) updatedSchedule of
                 None \<Rightarrow> updatedSchedule
               | Some nextSessionIndex \<Rightarrow>
                   updatedSchedule
                     [nextSessionIndex :=
                        (updatedSchedule ! nextSessionIndex)
                          \<lparr>studyItems := take 2 reinforcementNeeded
                                          @ studyItems (updatedSchedule ! nextSessionIndex),
                           duration := duration (updatedSchedule ! nextSessionIndex) + 10\<rparr>])
         else updatedSchedule)"

text \<open>The second adjustment, \<open>if (averageScore && averageScore > 85)\<close>: the \<open>forEach\<close>
  visits every index and rewrites the sessions at the indices above 0.\<close>

definition reduceDurations :: "Feedback \<Rightarrow> StudySession list \<Rightarrow> StudySession list" where
  "reduceDurations fb updatedSchedule =
     (case feedbackAverageScore fb of
        None \<Rightarrow> updatedSchedule
      | Some a \<Rightarrow>
          if a \<noteq> 0 \<and> a > 85
          then map (\<lambda>entry. if fst entry > 0
                             then (snd entry)\<lparr>duration := max 15 (duration (snd entry) - 5)\<rparr>
                             else snd entry)
                   (enumerate 0 updatedSchedule)
          else updatedSchedule)"

definition adjustScheduleBasedOnPerformance :: "int \<Rightarrow> StudySession list option \<Rightarrow> Feedback option
                                         \<Rightarrow> StudySession list option" where
  "adjustScheduleBasedOnPerformance now currentSchedule performanceFeedback =
     (case currentSchedule of
        None \<Rightarrow> None
      | Some sched \<Rightarrow>
          (case performanceFeedback of
             None \<Rightarrow> Some sched
           | Some fb \<Rightarrow> Some (reduceDurations fb (addReinforcement now fb sched))))"

section \<open>Auxiliary notions for the sequencer\<close>

text \<open>A sequence of subjects is spaced when two equal neighbours are followed by that
  subject only.\<close>

fun spaced :: "'a list \<Rightarrow> bool" where
  "spaced [] = True"
| "spaced [x] = True"
| "spaced (x # y # zs) = ((x = y \<longrightarrow> (\<forall>z \<in> set zs. z = y)) \<and> spaced (y # zs))"

text \<open>The groups of \<open>bySubject\<close> have distinct keys, and every item lies in the group of
  its own subject.\<close>

definition wellGrouped :: "groups \<Rightarrow> bool" where
  "wellGrouped gs =
     (distinct (map fst gs) \<and> (\<forall>kg \<in> set gs. \<forall>x \<in> set (snd kg). subjectKey x = fst kg))"

text \<open>One item of math and three of physics.\<close>

definition fourItems :: "ContentItem list" where
  "fourItems =
     [exampleItem ''m1'' (Some ''math'') 2 None None,
      exampleItem ''p1'' (Some ''physics'') 1 None None,
      exampleItem ''p2'' (Some ''physics'') 3 None None,
      exampleItem ''p3'' (Some ''physics'') 2 None None]"

text \<open>Three sessions dated 1000, 2000 and 3000, and a feedback record with one struggled
  item.\<close>

definition exampleSchedule :: "StudySession list" where
  "exampleSchedule =
     [\<lparr>date = 1000, studyItems = [fourItems ! 0], duration = 25, sessionBreakDuration = 5,
       completed = False\<rparr>,
      \<lparr>date = 2000, studyItems = [fourItems ! 1], duration = 18, sessionBreakDuration = 5,
       completed = False\<rparr>,
      \<lparr>date = 3000, studyItems = [fourItems ! 2], duration = 30, sessionBreakDuration = 5,
       completed = False\<rparr>]"

definition exampleFeedback :: "rat option \<Rightarrow> Feedback" where
  "exampleFeedback a =
     \<lparr>completedItems = None, struggledItems = Some [fourItems ! 3], feedbackAverageScore = a\<rparr>"

text \<open>The mock user's study periods, as they are and with the night raised above the
  evening.\<close>

definition mockPeriods :: "(string \<times> rat) list" where
  "mockPeriods =
     [(''morning'', 7 / 10), (''afternoon'', 3 / 10), (''evening'', 9 / 10), (''night'', 2 / 10)]"

definition nightPeriods :: "(string \<times> rat) list" where
  "nightPeriods =
     [(''morning'', 7 / 10), (''afternoon'', 3 / 10), (''evening'', 9 / 10), (''night'', 95 / 100)]"

section \<open>Properties of the session grouper\<close>

definition durationSum :: "ContentItem list \<Rightarrow> int" where
  "durationSum xs = sum_list (map itemDuration xs)"

text \<open>What the loop keeps true of a session, open or closed: its recorded duration is the
  sum of its items' durations, and it fits the target unless it holds one item only.\<close>

definition sessionFits :: "int \<Rightarrow> Session \<Rightarrow> bool" where
  "sessionFits t s =
     (sessionEstimatedDuration s = durationSum (items s)
      \<and> (durationSum (items s) \<le> t \<or> length (items s) = 1))"

lemma closeSession_items [simp]: "items (closeSession s) = items s"
  by (simp add: closeSession_def)

lemma closeSession_duration [simp]:
  "sessionEstimatedDuration (closeSession s) = sessionEstimatedDuration s"
  by (simp add: closeSession_def)

lemma sessionFits_close: "sessionFits t (closeSession s) = sessionFits t s"
  by (simp add: sessionFits_def)

lemma groupStep_fits:
  assumes "\<forall>s \<in> set (fst st). sessionFits t s"
    and "sessionEstimatedDuration (snd st) = durationSum (items (snd st))"
    and "items (snd st) = [] \<or> sessionFits t (snd st)"
  shows "(\<forall>s \<in> set (fst (groupStep t st x)). sessionFits t s)
         \<and> items (snd (groupStep t st x)) \<noteq> []
         \<and> sessionFits t (snd (groupStep t st x))"
  using assms
  by (auto simp: groupStep_def Let_def sessionFits_def durationSum_def newSession_def)

lemma foldl_groupStep_fits:
  assumes "\<forall>s \<in> set (fst st). sessionFits t s"
    and "sessionEstimatedDuration (snd st) = durationSum (items (snd st))"
    and "items (snd st) = [] \<or> sessionFits t (snd st)"
  shows "(\<forall>s \<in> set (fst (foldl (groupStep t) st xs)). sessionFits t s)
         \<and> (items (snd (foldl (groupStep t) st xs)) = []
            \<or> sessionFits t (snd (foldl (groupStep t) st xs)))"
  using assms
proof (induction xs arbitrary: st)
  case Nil
  then show ?case by simp
next
  case (Cons x xs)
  have step: "(\<forall>s \<in> set (fst (groupStep t st x)). sessionFits t s)
         \<and> items (snd (groupStep t st x)) \<noteq> []
         \<and> sessionFits t (snd (groupStep t st x))"
    using Cons.prems by (rule groupStep_fits)
  have "sessionEstimatedDuration (snd (groupStep t st x))
          = durationSum (items (snd (groupStep t st x)))"
    using step by (simp add: sessionFits_def)
  with step show ?case
    using Cons.IH [of "groupStep t st x"] by simp
qed

lemma groupContentIntoSessions_fits:
  "s \<in> set (groupContentIntoSessions xs t) \<Longrightarrow> sessionFits (targetDuration t) s"
proof (cases xs)
  case None
  assume "s \<in> set (groupContentIntoSessions xs t)"
  with None show ?thesis by (simp add: groupContentIntoSessions_def)
next
  case (Some ys)
  assume mem: "s \<in> set (groupContentIntoSessions xs t)"
  let ?st = "foldl (groupStep (targetDuration t)) ([], newSession) ys"
  have inv: "(\<forall>s \<in> set (fst ?st). sessionFits (targetDuration t) s)
         \<and> (items (snd ?st) = [] \<or> sessionFits (targetDuration t) (snd ?st))"
    by (rule foldl_groupStep_fits) (simp_all add: newSession_def durationSum_def)
  from mem Some have "s \<in> set (flushSession ?st)"
    by (simp add: groupContentIntoSessions_def split: if_splits)
  with inv show ?thesis
    by (auto simp: flushSession_def sessionFits_close split: if_splits)
qed

lemma sessionFits_single:
  assumes "sessionFits t s"
  shows "durationSum (items s) \<le> t \<or> (\<exists>x. items s = [x] \<and> t < itemDuration x)"
proof (cases "durationSum (items s) \<le> t")
  case True
  then show ?thesis by simp
next
  case False
  with assms have "length (items s) = 1" by (simp add: sessionFits_def)
  then obtain x where x: "items s = [x]"
    by (cases "items s") auto
  with False show ?thesis by (simp add: durationSum_def)
qed

text \<open>The items of the sessions built so far, followed by those of the open session, are
  the items consumed so far.\<close>

lemma groupStep_concat:
  "concat (map items (fst (groupStep t st x))) @ items (snd (groupStep t st x))
     = concat (map items (fst st)) @ items (snd st) @ [x]"
  by (simp add: groupStep_def Let_def newSession_def)

lemma foldl_groupStep_concat:
  "concat (map items (fst (foldl (groupStep t) st xs))) @ items (snd (foldl (groupStep t) st xs))
     = concat (map items (fst st)) @ items (snd st) @ xs"
proof (induction xs arbitrary: st)
  case Nil
  then show ?case by simp
next
  case (Cons x xs)
  show ?case
    using Cons.IH [of "groupStep t st x"] groupStep_concat [of t st x] by simp
qed

lemma flushSession_concat:
  "concat (map items (flushSession st)) = concat (map items (fst st)) @ items (snd st)"
  by (simp add: flushSession_def)

text \<open>
  C1. In every session returned by \<open>groupContentIntoSessions\<close> the sum of the items'
  durations (10 for an unset duration), which is the session's \<open>estimatedDuration\<close>, is
  at most the target duration, unless the session consists of a single item that alone
  exceeds the target. In particular three items of duration 15 with target 25 give three
  sessions of one item each.
\<close>

theorem groupContentIntoSessions_duration_bound:
  "(\<forall>s \<in> set (groupContentIntoSessions xs t).
       sessionEstimatedDuration s = durationSum (items s)
       \<and> (durationSum (items s) \<le> targetDuration t
          \<or> (\<exists>x. items s = [x] \<and> targetDuration t < itemDuration x)))
   \<and> (estimatedDuration a = Some 15 \<and> estimatedDuration b = Some 15
        \<and> estimatedDuration c = Some 15
      \<longrightarrow> map (\<lambda>s. length (items s)) (groupContentIntoSessions (Some [a, b, c]) (Some 25))
            = [1, 1, 1])"
proof
  show "\<forall>s \<in> set (groupContentIntoSessions xs t).
       sessionEstimatedDuration s = durationSum (items s)
       \<and> (durationSum (items s) \<le> targetDuration t
          \<or> (\<exists>x. items s = [x] \<and> targetDuration t < itemDuration x))"
  proof
    fix s
    assume "s \<in> set (groupContentIntoSessions xs t)"
    then have fits: "sessionFits (targetDuration t) s"
      by (rule groupContentIntoSessions_fits)
    then have "sessionEstimatedDuration s = durationSum (items s)"
      by (simp add: sessionFits_def)
    with sessionFits_single [OF fits]
    show "sessionEstimatedDuration s = durationSum (items s)
       \<and> (durationSum (items s) \<le> targetDuration t
          \<or> (\<exists>x. items s = [x] \<and> targetDuration t < itemDuration x))"
      by (rule_tac conjI)
  qed
next
  show "estimatedDuration a = Some 15 \<and> estimatedDuration b = Some 15
        \<and> estimatedDuration c = Some 15
      \<longrightarrow> map (\<lambda>s. length (items s)) (groupContentIntoSessions (Some [a, b, c]) (Some 25))
            = [1, 1, 1]"
    by (simp add: groupContentIntoSessions_def groupStep_def flushSession_def
        targetDuration_def itemDuration_def newSession_def Let_def)
qed

theorem groupContentIntoSessions_duration_bound_witness:
  "groupContentIntoSessions (Some [exampleItem ''a'' None 3 (Some 15) None,
        exampleItem ''b'' None 3 (Some 15) None, exampleItem ''c'' None 3 (Some 15) None]) (Some 25)
     \<noteq> []
   \<and> sessionEstimatedDuration (hd (groupContentIntoSessions
        (Some [exampleItem ''a'' None 3 (Some 15) None,
               exampleItem ''b'' None 3 (Some 15) None,
               exampleItem ''c'' None 3 (Some 15) None]) (Some 25))) = 15
   \<and> durationSum (items (hd (groupContentIntoSessions
        (Some [exampleItem ''a'' None 3 (Some 15) None,
               exampleItem ''b'' None 3 (Some 15) None,
               exampleItem ''c'' None 3 (Some 15) None]) (Some 25)))) \<le> 25
   \<and> estimatedDuration (exampleItem ''a'' None 3 (Some 15) None) = Some 15
   \<and> map (\<lambda>s. length (items s)) (groupContentIntoSessions
        (Some [exampleItem ''a'' None 3 (Some 15) None,
               exampleItem ''b'' None 3 (Some 15) None,
               exampleItem ''c'' None 3 (Some 15) None]) (Some 25)) = [1, 1, 1]"
  using groupContentIntoSessions_duration_bound
    [of "Some [exampleItem ''a'' None 3 (Some 15) None,
               exampleItem ''b'' None 3 (Some 15) None,
               exampleItem ''c'' None 3 (Some 15) None]" "Some 25"
        "exampleItem ''a'' None 3 (Some 15) None"
        "exampleItem ''b'' None 3 (Some 15) None"
        "exampleItem ''c'' None 3 (Some 15) None"]
  by (simp add: groupContentIntoSessions_def groupStep_def flushSession_def durationSum_def
      targetDuration_def itemDuration_def newSession_def exampleItem_def Let_def)

text \<open>
  C10. Concatenating the items of the returned sessions, in session order, gives back the
  input sequence: the grouper drops, duplicates and reorders nothing.
\<close>

theorem groupContentIntoSessions_partition:
  "concat (map items (groupContentIntoSessions (Some xs) t)) = xs"
  by (simp add: groupContentIntoSessions_def flushSession_concat foldl_groupStep_concat
      newSession_def)

text \<open>
  C4 fails on the code: the search for the highest-priority item starts from
  \<open>{ priority: 'low' }\<close>, so a session whose items are all \<open>optional\<close> (value 0) is
  labelled \<open>low\<close> (value 1), which is the priority of none of its items.
\<close>

theorem groupContentIntoSessions_optional_session_is_low:
  "map sessionPriority
     (groupContentIntoSessions (Some [exampleItem ''a'' None 3 None (Some ''optional'')]) None)
     = [Some ''low'']
   \<and> map (\<lambda>s. map priority (items s))
     (groupContentIntoSessions (Some [exampleItem ''a'' None 3 None (Some ''optional'')]) None)
     = [[Some ''optional'']]
   \<and> getPriorityValue (Some ''low'') \<noteq> getPriorityValue (Some ''optional'')"
  by (simp add: groupContentIntoSessions_def groupStep_def flushSession_def closeSession_def
      highestPriority_def getPriorityValue_def targetDuration_def itemDuration_def
      newSession_def exampleItem_def Let_def)

text \<open>What the code does compute: the value of the session's label is the greatest of the
  items' values and 1.\<close>

lemma foldl_highest_value:
  "getPriorityValue
     (foldl (\<lambda>highest item.
               if getPriorityValue (priority item) > getPriorityValue highest
               then priority item else highest) h xs)
     = foldl max (getPriorityValue h) (map (\<lambda>item. getPriorityValue (priority item)) xs)"
  by (induction xs arbitrary: h) (auto simp: max_def)

lemma highestPriority_value:
  "getPriorityValue (highestPriority xs)
     = foldl max 1 (map (\<lambda>item. getPriorityValue (priority item)) xs)"
proof -
  have "getPriorityValue (Some ''low'') = 1"
    by (simp add: getPriorityValue_def)
  then show ?thesis
    by (simp only: highestPriority_def foldl_highest_value)
qed

section \<open>Properties of the prioritizer\<close>

lemma calcPriorityScore_assignPriority [simp]:
  "calcPriorityScore now weak strong (assignPriority now' weak' strong' item)
     = calcPriorityScore now weak strong item"
  by (simp add: calcPriorityScore_def assignPriority_def)

lemma assignPriority_idem [simp]:
  "assignPriority now weak strong (assignPriority now weak strong item)
     = assignPriority now weak strong item"
  by (simp add: assignPriority_def calcPriorityScore_def)

lemma map_assignPriority_fixed:
  assumes "set ys \<subseteq> assignPriority now weak strong ` A"
  shows "map (assignPriority now weak strong) ys = ys"
proof -
  have "\<forall>y \<in> set ys. assignPriority now weak strong y = y"
    using assms by auto
  then show ?thesis by (simp add: map_idI)
qed

lemma sort_key_sort_key: "sort_key f (sort_key f xs) = sort_key f xs"
  by (rule sort_key_id_if_sorted) (rule sorted_sort_key)

text \<open>
  C8. With the clock fixed, \<open>prioritizeContent\<close> applied to its own output, with the same
  user data, returns that output again: the same order and the same \<open>priorityScore\<close> and
  \<open>priority\<close> on every item.
\<close>

theorem prioritizeContent_idempotent:
  "prioritizeContent now (Some (prioritizeContent now (Some xs) userData)) userData
     = prioritizeContent now (Some xs) userData"
proof (cases userData)
  case None
  then show ?thesis by (simp add: prioritizeContent_def)
next
  case (Some ud)
  let ?f = "assignPriority now (weakAreasOf (performance ud)) (strongAreasOf (performance ud))"
  let ?ys = "sort_key descendingKey (map ?f xs)"
  show ?thesis
  proof (cases "xs = []")
    case True
    with Some show ?thesis by (simp add: prioritizeContent_def)
  next
    case False
    have first: "prioritizeContent now (Some xs) userData = ?ys"
      using Some False by (simp add: prioritizeContent_def)
    have ne: "?ys \<noteq> []"
      using False by (metis length_sort length_map length_0_conv)
    have "set ?ys \<subseteq> ?f ` set xs" by simp
    then have fixed: "map ?f ?ys = ?ys" by (rule map_assignPriority_fixed)
    have "prioritizeContent now (Some ?ys) userData = sort_key descendingKey (map ?f ?ys)"
      using Some ne by (simp add: prioritizeContent_def)
    also have "\<dots> = ?ys" by (simp only: fixed sort_key_sort_key)
    finally show ?thesis by (simp only: first)
  qed
qed

section \<open>Properties of the study-mix generator\<close>

text \<open>
  C2 fails on the code, against the comment \<open>Max items to return\<close> on \<open>totalItems\<close>:
  with an average score below 60 and ten or more items the three targets are
  \<open>round(7) + round(1.5) + round(1.5) = 7 + 2 + 2 = 11\<close>, and eleven items come back when
  the buckets hold that many.
\<close>

theorem generateBalancedStudyMix_returns_eleven:
  "length (generateBalancedStudyMix (Some elevenItems) (Some (examplePerformance (Some 50)))) = 11"
  by code_simp

text \<open>
  C6 fails on the code at the average score 0: \<open>performance.averageScore || 70\<close> turns it
  into 70, and the targets are computed from 60/20/20 instead of 70/15/15.
\<close>

theorem targetCounts_score_zero_uses_default:
  "mixPercentages (Some (examplePerformance (Some 0))) = (60, 20, 20)
   \<and> targetCounts 10 (Some (examplePerformance (Some 0))) = (6, 2, 2)
   \<and> (mathRound (10 * (70 / 100)), mathRound (10 * (15 / 100)), mathRound (10 * (15 / 100)))
       = (7, 2, 2)"
  by code_simp

text \<open>For every other score below 60 the percentages are 70/15/15.\<close>

lemma mixPercentages_struggling:
  assumes "averageScore p = Some a" and "a \<noteq> 0" and "a < 60"
  shows "mixPercentages (Some p) = (70, 15, 15)"
  using assms by (simp add: mixPercentages_def)

lemma targetCounts_struggling:
  assumes "averageScore p = Some a" and "a \<noteq> 0" and "a < 60"
  shows "targetCounts n (Some p)
         = (mathRound (rat_of_nat (min n 10) * (70 / 100)),
            mathRound (rat_of_nat (min n 10) * (15 / 100)),
            mathRound (rat_of_nat (min n 10) * (15 / 100)))"
  using mixPercentages_struggling [OF assms] by (simp add: targetCounts_def Let_def mult.commute)

section \<open>Properties of the sequencer\<close>

lemma spaced_append:
  assumes "distinct r" and "spaced t"
    and "r \<noteq> [] \<Longrightarrow> t \<noteq> [] \<Longrightarrow> last r = hd t \<Longrightarrow> set t \<subseteq> {last r}"
  shows "spaced (r @ t)"
  using assms
proof (induction r rule: spaced.induct)
  case 1
  then show ?case by simp
next
  case (2 x)
  show ?case
  proof (cases t)
    case Nil
    then show ?thesis by simp
  next
    case (Cons y zs)
    have "x = y \<Longrightarrow> set zs \<subseteq> {y}"
      using "2.prems"(3) Cons by auto
    then show ?thesis
      using "2.prems"(2) Cons by auto
  qed
next
  case (3 x y zs)
  have xy: "x \<noteq> y" using "3.prems"(1) by simp
  have d: "distinct (y # zs)" using "3.prems"(1) by simp
  have b: "set t \<subseteq> {last (y # zs)}"
    if "y # zs \<noteq> []" "t \<noteq> []" "last (y # zs) = hd t"
  proof -
    have "last (x # y # zs) = hd t" using that(3) by simp
    then have "set t \<subseteq> {last (x # y # zs)}"
      using "3.prems"(3) that(2) by blast
    then show ?thesis by simp
  qed
  have "spaced ((y # zs) @ t)"
    using d "3.prems"(2) b by (rule "3.IH")
  with xy show ?case by simp
qed

lemma spaced_nth:
  assumes "spaced zs" and "Suc i < length zs" and "zs ! i = zs ! Suc i"
    and "Suc i \<le> j" and "j < length zs"
  shows "zs ! j = zs ! Suc i"
  using assms
proof (induction zs arbitrary: i j rule: spaced.induct)
  case 1
  then show ?case by simp
next
  case (2 x)
  then show ?case by simp
next
  case (3 x y zs)
  show ?case
  proof (cases i)
    case 0
    with "3.prems" have xy: "x = y" by simp
    with "3.prems" have all: "\<forall>z \<in> set zs. z = y" by simp
    have "(y # zs) ! (j - 1) = y"
    proof (cases "j - 1")
      case 0
      then show ?thesis by simp
    next
      case (Suc m)
      with "3.prems" have "m < length zs" by simp
      with all Suc show ?thesis by simp
    qed
    with 0 "3.prems" show ?thesis by (cases j) auto
  next
    case (Suc k)
    with "3.prems" obtain j' where j': "j = Suc j'" by (cases j) auto
    have "(y # zs) ! j' = (y # zs) ! Suc k"
      using "3.IH" [of k j'] "3.prems" Suc j' by simp
    with Suc j' show ?thesis by simp
  qed
qed

lemma filter_hd_last:
  assumes "distinct r" and "filter Q r \<noteq> []" and "hd (filter Q r) = last r"
  shows "filter Q r = [last r]"
proof -
  from assms(2) have ne: "r \<noteq> []" by auto
  have "distinct (butlast r @ [last r])" using assms(1) ne by simp
  then have notin: "last r \<notin> set (butlast r)" by simp
  have split: "filter Q r = filter Q (butlast r) @ (if Q (last r) then [last r] else [])"
  proof -
    have "filter Q (butlast r @ [last r]) = filter Q (butlast r) @ (if Q (last r) then [last r] else [])"
      by simp
    then show ?thesis using ne by simp
  qed
  have empty: "filter Q (butlast r) = []"
  proof (rule ccontr)
    assume nonempty: "filter Q (butlast r) \<noteq> []"
    then have "hd (filter Q r) = hd (filter Q (butlast r))"
      using split by simp
    moreover have "hd (filter Q (butlast r)) \<in> set (filter Q (butlast r))"
      using nonempty by (rule hd_in_set)
    ultimately have "last r \<in> set (butlast r)"
      using assms(3) by auto
    with notin show False by simp
  qed
  with split assms(2) show ?thesis by (auto split: if_splits)
qed


lemma later_rounds_subset:
  fixes len :: "'a \<Rightarrow> nat"
  shows "set (concat (map (\<lambda>j. filter (\<lambda>k. j < len k) ks) [i..<m]))
           \<subseteq> set (filter (\<lambda>k. i < len k) ks)"
  by auto

lemma rounds_spaced:
  fixes len :: "'a \<Rightarrow> nat"
  assumes "distinct ks"
  shows "spaced (concat (map (\<lambda>j. filter (\<lambda>k. j < len k) ks) [i..<m]))"
proof (induction "m - i" arbitrary: i)
  case 0
  then show ?case by simp
next
  case (Suc n)
  let ?round = "\<lambda>j. filter (\<lambda>k. j < len k) ks"
  let ?r = "?round i"
  let ?t = "concat (map ?round [Suc i..<m])"
  from Suc.hyps(2) have im: "i < m" by simp
  then have unfold: "concat (map ?round [i..<m]) = ?r @ ?t"
    by (simp add: upt_conv_Cons)
  have dr: "distinct ?r" using assms by simp
  have st: "spaced ?t" using Suc.hyps(1) [of "Suc i"] Suc.hyps(2) by simp
  have sub: "set ?t \<subseteq> set (?round (Suc i))" by (rule later_rounds_subset)
  have boundary: "set ?t \<subseteq> {last ?r}" if "?r \<noteq> []" "?t \<noteq> []" "last ?r = hd ?t"
  proof -
    have next_ne: "?round (Suc i) \<noteq> []"
      using sub that(2) by (metis set_empty subset_empty)
    have "Suc i < m" using that(2) by (cases "Suc i < m") auto
    then have "?t = ?round (Suc i) @ concat (map ?round [Suc (Suc i)..<m])"
      by (simp add: upt_conv_Cons)
    with next_ne have "hd ?t = hd (?round (Suc i))" by simp
    with that(3) have hd_last: "hd (?round (Suc i)) = last ?r" by simp
    have as_filter: "?round (Suc i) = filter (\<lambda>k. Suc i < len k) ?r"
      by (simp add: conj_commute) (metis (mono_tags, lifting) Suc_lessD filter_cong)
    have "filter (\<lambda>k. Suc i < len k) ?r = [last ?r]"
      using dr next_ne hd_last unfolding as_filter by (rule filter_hd_last)
    then have "?round (Suc i) = [last ?r]" by (simp only: as_filter [symmetric])
    then have eq: "set (?round (Suc i)) = {last ?r}" by simp
    from sub show ?thesis unfolding eq .
  qed
  have "spaced (?r @ ?t)" using dr st boundary by (rule spaced_append)
  with unfold show ?case by simp
qed

lemma interleave_closed:
  "interleave gs i res = res @ concat (map (\<lambda>j. interleaveRound j gs) [i..<maxLength gs])"
proof (induction gs i res rule: interleave.induct)
  case (1 gs i res)
  show ?case
  proof (cases "interleaveRound i gs = []")
    case True
    then have "maxLength gs \<le> i" by (simp add: interleaveRound_empty_iff)
    with True show ?thesis by (subst interleave.simps) simp
  next
    case False
    then have "i < maxLength gs" by (simp add: interleaveRound_empty_iff)
    then have "[i..<maxLength gs] = i # [Suc i..<maxLength gs]" by (rule upt_conv_Cons)
    with False "1.IH" show ?thesis by (subst interleave.simps) simp
  qed
qed

lemma round_subjects:
  assumes "\<forall>k \<in> set ks. \<forall>x \<in> set (grp k). subjectKey x = k"
  shows "map subjectKey (interleaveRound j (map grp ks)) = filter (\<lambda>k. j < length (grp k)) ks"
  using assms by (induction ks) (auto simp: interleaveRound_def)


lemma pushToGroup_keys [simp]: "map fst (pushToGroup k x gs) = map fst gs"
  by (induction gs) auto

lemma pushToGroup_members:
  assumes "\<forall>kg \<in> set gs. \<forall>y \<in> set (snd kg). subjectKey y = fst kg"
    and "subjectKey x = k"
  shows "\<forall>kg \<in> set (pushToGroup k x gs). \<forall>y \<in> set (snd kg). subjectKey y = fst kg"
  using assms by (induction gs) (auto split: if_splits)

lemma wellGrouped_push:
  "wellGrouped gs \<Longrightarrow> wellGrouped (pushToGroup (subjectKey x) x gs)"
  using pushToGroup_members [of gs x "subjectKey x"] by (simp add: wellGrouped_def)

lemma wellGrouped_new:
  "wellGrouped gs \<Longrightarrow> subjectKey x \<notin> set (map fst gs) \<Longrightarrow> wellGrouped (gs @ [(subjectKey x, [x])])"
  by (auto simp: wellGrouped_def)

lemma groupBySubject_wellGrouped:
  "wellGrouped gs \<Longrightarrow> groupBySubject gs xs = Inr gs' \<Longrightarrow> wellGrouped gs'"
proof (induction xs arbitrary: gs)
  case Nil
  then show ?case by simp
next
  case (Cons x xs)
  show ?case
  proof (cases "subjectKey x \<in> set (map fst gs)")
    case True
    with Cons.prems(2) have "groupBySubject (pushToGroup (subjectKey x) x gs) xs = Inr gs'"
      by simp
    with Cons.prems(1) show ?thesis
      using Cons.IH wellGrouped_push by blast
  next
    case False
    with Cons.prems(2) have "groupBySubject (gs @ [(subjectKey x, [x])]) xs = Inr gs'"
      by (simp split: if_splits)
    with Cons.prems(1) False show ?thesis
      using Cons.IH wellGrouped_new by blast
  qed
qed

lemma set_insertBy [simp]: "set (insertBy cmp x ys) = insert x (set ys)"
  by (induction ys) auto

lemma set_sortWith [simp]: "set (sortWith cmp xs) = set xs"
  by (induction xs) (auto simp: sortWith_def)

lemma wellGrouped_sorted:
  "wellGrouped gs \<Longrightarrow> wellGrouped (map (\<lambda>kg. (fst kg, sortWith cmp (snd kg))) gs)"
  by (auto simp: wellGrouped_def comp_def)

lemma groupOf_subject:
  assumes "wellGrouped gs" and "x \<in> set (groupOf gs k)"
  shows "subjectKey x = k"
proof (cases "map_of gs k")
  case None
  with assms(2) show ?thesis by (simp add: groupOf_def)
next
  case (Some g)
  then have "(k, g) \<in> set gs" by (rule map_of_SomeD)
  moreover from Some assms(2) have "x \<in> set g" by (simp add: groupOf_def)
  ultimately show ?thesis using assms(1) by (auto simp: wellGrouped_def)
qed

lemma distinct_objectKeys: "distinct ks \<Longrightarrow> distinct (objectKeys ks)"
  by (auto simp: objectKeys_def)

lemma interleave_subjects:
  assumes "wellGrouped gs"
  shows "map subjectKey (interleave (map (groupOf gs) ks) 0 [])
         = concat (map (\<lambda>j. filter (\<lambda>k. j < length (groupOf gs k)) ks)
                       [0..<maxLength (map (groupOf gs) ks)])"
proof -
  have "\<forall>k \<in> set ks. \<forall>x \<in> set (groupOf gs k). subjectKey x = k"
    using assms groupOf_subject by blast
  then have "\<And>j. map subjectKey (interleaveRound j (map (groupOf gs) ks))
               = filter (\<lambda>k. j < length (groupOf gs k)) ks"
    by (rule round_subjects)
  then show ?thesis
    by (simp add: interleave_closed map_concat comp_def)
qed

lemma recommendContentSequence_spaced:
  assumes "recommendContentSequence contentItems = Inr ys"
  shows "spaced (map subjectKey ys)"
proof (cases contentItems)
  case None
  with assms show ?thesis by (auto simp: recommendContentSequence_def)
next
  case (Some xs)
  show ?thesis
  proof (cases "xs = []")
    case True
    with Some assms show ?thesis by (auto simp: recommendContentSequence_def)
  next
    case False
    with Some assms obtain bySubject where grouped: "groupBySubject [] xs = Inr bySubject"
      by (auto simp: recommendContentSequence_def split: sum.splits)
    let ?sorted = "map (\<lambda>kg. (fst kg, sortWith compareItems (snd kg))) bySubject"
    let ?subjects = "objectKeys (map fst ?sorted)"
    have ys: "ys = interleave (map (groupOf ?sorted) ?subjects) 0 []"
      using Some False assms grouped by (simp add: recommendContentSequence_def Let_def)
    have "wellGrouped []" by (simp add: wellGrouped_def)
    then have "wellGrouped bySubject" using grouped by (rule groupBySubject_wellGrouped)
    then have wg: "wellGrouped ?sorted" by (rule wellGrouped_sorted)
    then have "distinct (map fst ?sorted)" by (simp add: wellGrouped_def)
    then have "distinct ?subjects" by (rule distinct_objectKeys)
    then have "spaced (concat (map (\<lambda>j. filter (\<lambda>k. j < length (groupOf ?sorted k)) ?subjects)
                       [0..<maxLength (map (groupOf ?sorted) ?subjects)]))"
      by (rule rounds_spaced)
    then show ?thesis
      by (simp only: ys interleave_subjects [OF wg])
  qed
qed

text \<open>
  C7. In the sequence returned by \<open>recommendContentSequence\<close>, two neighbours of the
  same subject (\<open>general\<close> for a missing one) occur only when no other subject has an
  item left: from the second of the two onwards every item is of that subject.
\<close>

theorem recommendContentSequence_spacing:
  assumes "recommendContentSequence contentItems = Inr ys"
    and "Suc i < length ys"
    and "subjectKey (ys ! i) = subjectKey (ys ! Suc i)"
    and "Suc i \<le> j" and "j < length ys"
  shows "subjectKey (ys ! j) = subjectKey (ys ! Suc i)"
proof -
  have sp: "spaced (map subjectKey ys)"
    using assms(1) by (rule recommendContentSequence_spaced)
  have a: "Suc i < length (map subjectKey ys)" using assms(2) by simp
  have b: "map subjectKey ys ! i = map subjectKey ys ! Suc i" using assms(2,3) by simp
  have c: "j < length (map subjectKey ys)" using assms(5) by simp
  have "map subjectKey ys ! j = map subjectKey ys ! Suc i"
    using sp a b assms(4) c by (rule spaced_nth)
  then show ?thesis using assms(2,5) by simp
qed

theorem recommendContentSequence_spacing_witness:
  "recommendContentSequence (Some fourItems)
     = Inr [fourItems ! 0, fourItems ! 1, fourItems ! 3, fourItems ! 2]
   \<and> subjectKey ([fourItems ! 0, fourItems ! 1, fourItems ! 3, fourItems ! 2] ! 1) = ''physics''
   \<and> subjectKey ([fourItems ! 0, fourItems ! 1, fourItems ! 3, fourItems ! 2] ! Suc 1) = ''physics''
   \<and> subjectKey ([fourItems ! 0, fourItems ! 1, fourItems ! 3, fourItems ! 2] ! 3) = ''physics''"
proof -
  let ?ys = "[fourItems ! 0, fourItems ! 1, fourItems ! 3, fourItems ! 2]"
  have r: "recommendContentSequence (Some fourItems) = Inr ?ys"
    by code_simp
  have a: "Suc 1 < length ?ys" by simp
  have b1: "subjectKey (?ys ! 1) = ''physics''" by code_simp
  have b2: "subjectKey (?ys ! Suc 1) = ''physics''" by code_simp
  have b: "subjectKey (?ys ! 1) = subjectKey (?ys ! Suc 1)"
    by (simp only: b1 b2)
  have c: "Suc 1 \<le> (3::nat)" by simp
  have d: "3 < length ?ys" by simp
  have "subjectKey (?ys ! 3) = subjectKey (?ys ! Suc 1)"
    using r a b c d by (rule recommendContentSequence_spacing)
  with r b1 b2 show ?thesis by (simp only:)
qed

section \<open>Properties of the scheduler\<close>

lemma scheduleDay_ok:
  assumes "getBestStudyHours (habits ud) \<noteq> None"
  shows "\<exists>session. scheduleDay ud sc ipd cur day = Inr session"
  using assms by (auto simp: scheduleDay_def Let_def)

lemma scheduleDay_throws:
  assumes "getBestStudyHours (habits ud) = None"
  shows "scheduleDay ud sc ipd cur day = Inl TypeError"
  using assms by (simp add: scheduleDay_def Let_def)

lemma scheduleLoop_length:
  assumes "getBestStudyHours (habits ud) \<noteq> None"
  shows "\<exists>res. scheduleLoop ud sc ipd ds cur acc = Inr res \<and> length res = length acc + length ds"
proof (induction ds arbitrary: cur acc)
  case Nil
  then show ?case by simp
next
  case (Cons d ds)
  obtain session where day: "scheduleDay ud sc ipd cur d = Inr session"
    using scheduleDay_ok [OF assms] by blast
  obtain res where "scheduleLoop ud sc ipd ds (cur + msPerDay) (acc @ [session]) = Inr res"
    and "length res = length (acc @ [session]) + length ds"
    using Cons.IH by blast
  with day show ?case by simp
qed

lemma scheduleLoop_throws:
  assumes "getBestStudyHours (habits ud) = None" and "ds \<noteq> []"
  shows "scheduleLoop ud sc ipd ds cur acc = Inl TypeError"
  using assms by (cases ds) (simp_all add: scheduleDay_throws)

lemma generateAdaptiveSchedule_throws:
  assumes "getBestStudyHours (habits ud) = None" and "xs \<noteq> []" and "0 < days"
  shows "generateAdaptiveSchedule (Some ud) (Some xs) start days = Inl TypeError"
proof -
  have "[0..<nat days] \<noteq> []" using assms(3) by simp
  then show ?thesis
    using assms(1,2) by (simp add: generateAdaptiveSchedule_def Let_def scheduleLoop_throws)
qed

text \<open>
  C3 as the code has it. With user data whose best study period is morning, afternoon or
  evening, a non-empty content list and a day count of at least 0, the schedule has exactly
  \<open>daysToSchedule\<close> sessions. The empty schedule is returned only when the user data is
  absent, the content list is empty or absent, or the day count is 0 or less.
\<close>

theorem generateAdaptiveSchedule_length:
  "(getBestStudyHours (habits ud) \<noteq> None \<and> xs \<noteq> [] \<and> 0 \<le> days
      \<longrightarrow> (\<exists>sch. generateAdaptiveSchedule (Some ud) (Some xs) start days = Inr sch
                 \<and> int (length sch) = days))
   \<and> (generateAdaptiveSchedule userData contentItems start days = Inr []
      \<longrightarrow> userData = None \<or> contentItems = None \<or> contentItems = Some [] \<or> days \<le> 0)"
proof (intro conjI impI)
  assume a: "getBestStudyHours (habits ud) \<noteq> None \<and> xs \<noteq> [] \<and> 0 \<le> days"
  let ?sc = "sortWith (compareContent (performance ud)) xs"
  let ?ipd = "itemsPerDayOf (length ?sc) days
                (orDefault (case habits ud of None \<Rightarrow> None | Some h \<Rightarrow> consistencyScore h) (1 / 2))"
  obtain res where res: "scheduleLoop ud ?sc ?ipd [0..<nat days] start [] = Inr res"
    and len: "length res = length ([] :: StudySession list) + length [0..<nat days]"
    using scheduleLoop_length a by blast
  have "generateAdaptiveSchedule (Some ud) (Some xs) start days = Inr res"
    using a res by (simp add: generateAdaptiveSchedule_def Let_def)
  moreover have "int (length res) = days" using len a by simp
  ultimately show "\<exists>sch. generateAdaptiveSchedule (Some ud) (Some xs) start days = Inr sch
                 \<and> int (length sch) = days" by blast
next
  assume e: "generateAdaptiveSchedule userData contentItems start days = Inr []"
  show "userData = None \<or> contentItems = None \<or> contentItems = Some [] \<or> days \<le> 0"
  proof (rule ccontr)
    assume n: "\<not> (userData = None \<or> contentItems = None \<or> contentItems = Some [] \<or> days \<le> 0)"
    then obtain ud xs where ud: "userData = Some ud" and xs: "contentItems = Some xs"
      and ne: "xs \<noteq> []" and pos: "0 < days"
      by auto
    show False
    proof (cases "getBestStudyHours (habits ud) = None")
      case True
      then have "generateAdaptiveSchedule (Some ud) (Some xs) start days = Inl TypeError"
        using ne pos by (rule generateAdaptiveSchedule_throws)
      with e ud xs show False by simp
    next
      case False
      let ?sc = "sortWith (compareContent (performance ud)) xs"
      let ?ipd = "itemsPerDayOf (length ?sc) days
                (orDefault (case habits ud of None \<Rightarrow> None | Some h \<Rightarrow> consistencyScore h) (1 / 2))"
      obtain res where res: "scheduleLoop ud ?sc ?ipd [0..<nat days] start [] = Inr res"
        and len: "length res = length ([] :: StudySession list) + length [0..<nat days]"
        using scheduleLoop_length False by blast
      have "generateAdaptiveSchedule (Some ud) (Some xs) start days = Inr res"
        using ne res by (simp add: generateAdaptiveSchedule_def Let_def)
      with e ud xs have "res = []" by simp
      with len pos show False by simp
    qed
  qed
qed

theorem generateAdaptiveSchedule_length_witness:
  "getBestStudyHours (habits (exampleUser mockPeriods)) \<noteq> None
   \<and> fourItems \<noteq> [] \<and> (0::int) \<le> 7
   \<and> map_sum id length
         (generateAdaptiveSchedule (Some (exampleUser mockPeriods)) (Some fourItems) 0 7) = Inr 7
   \<and> generateAdaptiveSchedule (Some (exampleUser mockPeriods)) (Some fourItems) 0 0 = Inr []
   \<and> (0::int) \<le> 0"
proof -
  have h1: "getBestStudyHours (habits (exampleUser mockPeriods)) \<noteq> None" by code_simp
  have h2: "fourItems \<noteq> []" by code_simp
  have h3: "(0::int) \<le> 7" by simp
  have h4: "generateAdaptiveSchedule (Some (exampleUser mockPeriods)) (Some fourItems) 0 0 = Inr []"
    by code_simp
  obtain sch
    where "generateAdaptiveSchedule (Some (exampleUser mockPeriods)) (Some fourItems) 0 7 = Inr sch"
      and "int (length sch) = 7"
    using h1 h2 h3
      generateAdaptiveSchedule_length [of "exampleUser mockPeriods" fourItems 7 0]
    by blast
  then have h5: "map_sum id length
         (generateAdaptiveSchedule (Some (exampleUser mockPeriods)) (Some fourItems) 0 7) = Inr 7"
    by simp
  have "(0::int) \<le> 0"
    using h4 generateAdaptiveSchedule_length
      [of "exampleUser mockPeriods" fourItems 0 0 "Some (exampleUser mockPeriods)" "Some fourItems"]
    by simp
  with h1 h2 h3 h4 h5 show ?thesis by (intro conjI)
qed

text \<open>
  C3 as stated fails: without user data the schedule is empty although the content list is
  not, and so it is for a day count of 0.
\<close>

theorem generateAdaptiveSchedule_empty_counterexample:
  "fourItems \<noteq> []
   \<and> generateAdaptiveSchedule None (Some fourItems) 0 7 = Inr []
   \<and> generateAdaptiveSchedule (Some (exampleUser mockPeriods)) (Some fourItems) 0 0 = Inr []"
  by code_simp

text \<open>
  C5 fails on the code: when the best study period is \<open>night\<close>, a key of the mock user's
  own \<open>preferredStudyTime\<close>, \<open>defaultHours\<close> has no entry for it and the destructuring
  of \<open>undefined\<close> throws a TypeError in the first pass of the loop.
\<close>

theorem generateAdaptiveSchedule_night_throws:
  "bestPeriod (habits (exampleUser nightPeriods)) = ''night''
   \<and> generateAdaptiveSchedule (Some (exampleUser nightPeriods)) (Some fourItems) 0 7
       = Inl TypeError"
  by code_simp

section \<open>Properties of the feedback adjustment\<close>

lemma length_addReinforcement [simp]: "length (addReinforcement now fb sched) = length sched"
  by (simp add: addReinforcement_def Let_def split: option.splits)

lemma addReinforcement_score [simp]:
  "addReinforcement now (fb\<lparr>feedbackAverageScore := a\<rparr>) sched = addReinforcement now fb sched"
  by (simp add: addReinforcement_def)

lemma reduceDurations_none [simp]:
  "reduceDurations (fb\<lparr>feedbackAverageScore := None\<rparr>) sched = sched"
  by (simp add: reduceDurations_def)

lemma reduceDurations_high:
  assumes "feedbackAverageScore fb = Some a" and "a > 85"
  shows "length (reduceDurations fb sched) = length sched"
    and "i < length sched \<Longrightarrow>
         reduceDurations fb sched ! i
           = (if i = 0 then sched ! i else (sched ! i)\<lparr>duration := max 15 (duration (sched ! i) - 5)\<rparr>)"
  using assms by (auto simp: reduceDurations_def nth_enumerate_eq)

text \<open>
  C9. With a feedback score above 85, \<open>adjustScheduleBasedOnPerformance\<close> returns the
  schedule that the struggled-items adjustment alone gives (the same call without the
  score), with the session at index 0 as it is there and the duration of every session at an
  index above 0 replaced by the greater of 15 and that duration less 5.
\<close>

theorem adjustSchedule_high_score:
  assumes "feedbackAverageScore fb = Some a" and "a > 85"
  shows "\<exists>res mid.
           adjustScheduleBasedOnPerformance now (Some sched) (Some fb) = Some res
         \<and> adjustScheduleBasedOnPerformance now (Some sched)
               (Some (fb\<lparr>feedbackAverageScore := None\<rparr>)) = Some mid
         \<and> length res = length sched \<and> length mid = length sched
         \<and> (\<forall>i < length sched.
               res ! i = (if i = 0 then mid ! i
                          else (mid ! i)\<lparr>duration := max 15 (duration (mid ! i) - 5)\<rparr>))"
proof -
  let ?mid = "addReinforcement now fb sched"
  let ?res = "reduceDurations fb ?mid"
  have r: "adjustScheduleBasedOnPerformance now (Some sched) (Some fb) = Some ?res"
    by (simp add: adjustScheduleBasedOnPerformance_def)
  have m: "adjustScheduleBasedOnPerformance now (Some sched)
               (Some (fb\<lparr>feedbackAverageScore := None\<rparr>)) = Some ?mid"
    by (simp add: adjustScheduleBasedOnPerformance_def)
  have l: "length ?res = length sched"
    using reduceDurations_high(1) [OF assms] by simp
  have n: "\<forall>i < length sched.
               ?res ! i = (if i = 0 then ?mid ! i
                          else (?mid ! i)\<lparr>duration := max 15 (duration (?mid ! i) - 5)\<rparr>)"
    using reduceDurations_high(2) [OF assms, of _ ?mid] by simp
  from r m l n show ?thesis by (intro exI [of _ ?res] exI [of _ ?mid]) simp
qed

theorem adjustSchedule_high_score_witness:
  "feedbackAverageScore (exampleFeedback (Some 90)) = Some 90 \<and> (85::rat) < 90
   \<and> map_option length
         (adjustScheduleBasedOnPerformance 1500 (Some exampleSchedule)
            (Some (exampleFeedback (Some 90)))) = Some (length exampleSchedule)
   \<and> map_option (map duration)
         (adjustScheduleBasedOnPerformance 1500 (Some exampleSchedule)
            (Some (exampleFeedback None))) = Some [25, 28, 30]
   \<and> map_option (map duration)
         (adjustScheduleBasedOnPerformance 1500 (Some exampleSchedule)
            (Some (exampleFeedback (Some 90)))) = Some [25, 23, 25]"
proof -
  have h1: "feedbackAverageScore (exampleFeedback (Some 90)) = Some 90"
    by (simp add: exampleFeedback_def)
  have h2: "(85::rat) < 90" by simp
  obtain res
    where "adjustScheduleBasedOnPerformance 1500 (Some exampleSchedule)
             (Some (exampleFeedback (Some 90))) = Some res"
      and "length res = length exampleSchedule"
    using adjustSchedule_high_score [OF h1 h2, of 1500 exampleSchedule] by blast
  then have h3: "map_option length
         (adjustScheduleBasedOnPerformance 1500 (Some exampleSchedule)
            (Some (exampleFeedback (Some 90)))) = Some (length exampleSchedule)"
    by simp
  have h4: "map_option (map duration)
         (adjustScheduleBasedOnPerformance 1500 (Some exampleSchedule)
            (Some (exampleFeedback None))) = Some [25, 28, 30]"
    by code_simp
  have h5: "map_option (map duration)
         (adjustScheduleBasedOnPerformance 1500 (Some exampleSchedule)
            (Some (exampleFeedback (Some 90)))) = Some [25, 23, 25]"
    by code_simp
  from h1 h2 h3 h4 h5 show ?thesis by (intro conjI)
qed

end
